theory Spec2Isabelle
  imports Main "HOL-Library.Word"
begin

unbundle bit_operations_syntax

section \<open>JavaScript strings as the source uses them\<close>

text \<open>
  A JavaScript string is a sequence of code units. The model is \<^typ>\<open>string\<close>, whose
  characters are the code units \<open>0 .. 255\<close>; connection strings with code units beyond
  that range are outside the model. Every library method that the source calls on a
  string is a function here, with the receiver as first argument.
\<close>

definition isWhiteSpace :: "char \<Rightarrow> bool" where
  \<comment> \<open>the WhiteSpace and LineTerminator code units below 256, as \<open>trim\<close> removes them\<close>
  "isWhiteSpace c = (c \<in> set [CHR 0x09, CHR 0x0A, CHR 0x0B, CHR 0x0C, CHR 0x0D, CHR 0x20, CHR 0xA0])"

definition isLineTerminator :: "char \<Rightarrow> bool" where
  \<comment> \<open>the code units below 256 that \<open>.\<close> of a regular expression does not match\<close>
  "isLineTerminator c = (c = CHR 0x0A \<or> c = CHR 0x0D)"

definition trim :: "string \<Rightarrow> string" where
  "trim s = rev (dropWhile isWhiteSpace (rev (dropWhile isWhiteSpace s)))"

definition startsWith :: "string \<Rightarrow> string \<Rightarrow> bool" where
  "startsWith s p = (take (length p) s = p)"

definition endsWith :: "string \<Rightarrow> string \<Rightarrow> bool" where
  "endsWith s p = (length p \<le> length s \<and> drop (length s - length p) s = p)"

definition slice_0_m1 :: "string \<Rightarrow> string" where
  \<comment> \<open>\<open>s.slice(0, -1)\<close>\<close>
  "slice_0_m1 s = take (length s - 1) s"

fun split :: "string \<Rightarrow> char \<Rightarrow> string list" where
  \<comment> \<open>\<open>s.split(sep)\<close> for a separator of one code unit; the result is never empty\<close>
  "split [] sep = [[]]"
| "split (c # cs) sep =
     (if c = sep then [] # split cs sep
      else (case split cs sep of [] \<Rightarrow> [[c]] | x # xs \<Rightarrow> (c # x) # xs))"

fun search :: "string \<Rightarrow> string \<Rightarrow> int" where
  \<comment> \<open>\<open>s.search(lit)\<close> for a pattern \<open>lit\<close> without regular-expression metacharacters:
      the index of the first occurrence of \<open>lit\<close>, or \<open>-1\<close>\<close>
  "search [] lit = (if lit = [] then 0 else - 1)"
| "search (c # cs) lit =
     (if startsWith (c # cs) lit then 0
      else (let r = search cs lit in if r = - 1 then - 1 else r + 1))"

fun match_group1 :: "string \<Rightarrow> string \<Rightarrow> string option" where
  \<comment> \<open>\<open>s.match(lit + "(.*)")\<close> for \<open>lit\<close> without metacharacters: \<open>None\<close> is \<open>null\<close>,
      \<open>Some v\<close> is a match array whose element \<open>[1]\<close> is \<open>v\<close>. The leftmost occurrence
      of \<open>lit\<close> matches, and the greedy \<open>.*\<close> runs to the first line terminator.\<close>
  "match_group1 [] lit = (if lit = [] then Some [] else None)"
| "match_group1 (c # cs) lit =
     (if startsWith (c # cs) lit
      then Some (takeWhile (\<lambda>x. \<not> isLineTerminator x) (drop (length lit) (c # cs)))
      else match_group1 cs lit)"

definition toLowerCase_char :: "char \<Rightarrow> char" where
  "toLowerCase_char c =
     (let n = (of_char c :: nat)
      in if (65 \<le> n \<and> n \<le> 90) \<or> (192 \<le> n \<and> n \<le> 222 \<and> n \<noteq> 215)
         then char_of (n + 32) else c)"

definition toLowerCase :: "string \<Rightarrow> string" where
  "toLowerCase s = map toLowerCase_char s"

definition nth_opt :: "'a list \<Rightarrow> nat \<Rightarrow> 'a option" where
  \<comment> \<open>\<open>xs[i]\<close> of an array: \<open>None\<close> is \<open>undefined\<close>\<close>
  "nth_opt xs i = (if i < length xs then Some (xs ! i) else None)"

section \<open>Library functions the source calls\<close>

subsection \<open>Buffers and base64\<close>

type_synonym byte = "8 word"

definition unbase64 :: "char \<Rightarrow> byte option" where
  \<comment> \<open>the value of a base64 digit; \<open>-\<close> and \<open>_\<close> of the URL-safe alphabet are accepted\<close>
  "unbase64 c =
     (let n = (of_char c :: nat)
      in if 65 \<le> n \<and> n \<le> 90 then Some (of_nat (n - 65))
         else if 97 \<le> n \<and> n \<le> 122 then Some (of_nat (n - 71))
         else if 48 \<le> n \<and> n \<le> 57 then Some (of_nat (n + 4))
         else if c = CHR ''+'' \<or> c = CHR ''-'' then Some 62
         else if c = CHR ''/'' \<or> c = CHR ''_'' then Some 63
         else None)"

fun base64_decode_groups :: "byte list \<Rightarrow> byte list" where
  "base64_decode_groups (a # b # c # d # rest) =
     (push_bit 2 (a AND 0x3F) OR drop_bit 4 (b AND 0x30))
     # (push_bit 4 (b AND 0x0F) OR drop_bit 2 (c AND 0x3C))
     # (push_bit 6 (c AND 0x03) OR (d AND 0x3F))
     # base64_decode_groups rest"
| "base64_decode_groups [a, b, c] =
     [push_bit 2 (a AND 0x3F) OR drop_bit 4 (b AND 0x30),
      push_bit 4 (b AND 0x0F) OR drop_bit 2 (c AND 0x3C)]"
| "base64_decode_groups [a, b] = [push_bit 2 (a AND 0x3F) OR drop_bit 4 (b AND 0x30)]"
| "base64_decode_groups [a] = []"
| "base64_decode_groups [] = []"

definition Buffer_from_base64 :: "string \<Rightarrow> byte list" where
  \<comment> \<open>\<open>Buffer.from(s, "base64")\<close>: decoding stops at the first \<open>=\<close>, code units that are
      not base64 digits are skipped, and an incomplete last group gives the bytes it
      determines\<close>
  "Buffer_from_base64 s =
     base64_decode_groups (List.map_filter unbase64 (takeWhile (\<lambda>c. c \<noteq> CHR ''='') s))"

definition base64_digit :: "byte \<Rightarrow> char" where
  "base64_digit v =
     ''ABCDEFGHIJKLMNOPQRSTUVWXYZabcdefghijklmnopqrstuvwxyz0123456789+/'' ! unat (v AND 0x3F)"

fun Buffer_toString_base64 :: "byte list \<Rightarrow> string" where
  \<comment> \<open>\<open>buf.toString("base64")\<close>\<close>
  "Buffer_toString_base64 (x # y # z # rest) =
     base64_digit (drop_bit 2 x)
     # base64_digit (push_bit 4 (x AND 0x03) OR drop_bit 4 y)
     # base64_digit (push_bit 2 (y AND 0x0F) OR drop_bit 6 z)
     # base64_digit (z AND 0x3F)
     # Buffer_toString_base64 rest"
| "Buffer_toString_base64 [x, y] =
     [base64_digit (drop_bit 2 x),
      base64_digit (push_bit 4 (x AND 0x03) OR drop_bit 4 y),
      base64_digit (push_bit 2 (y AND 0x0F)),
      CHR ''='']"
| "Buffer_toString_base64 [x] =
     [base64_digit (drop_bit 2 x), base64_digit (push_bit 4 (x AND 0x03)), CHR ''='', CHR ''='']"
| "Buffer_toString_base64 [] = []"

subsection \<open>\<open>URLBuilder\<close>\<close>

text \<open>
  \<open>URLBuilder.parse(text)\<close> runs a tokenizer over \<open>text\<close>, starting in the state
  \<open>SCHEME_OR_HOST\<close>, and stores each token in the builder; an empty token is stored as
  \<open>undefined\<close>. The source reads the host and the path of the builder only, so the
  model keeps these two fields. \<open>None\<close> is \<open>undefined\<close>.
\<close>

record URLBuilder =
  getHost :: "string option"
  getPath :: "string option"

definition readUntilCharacter :: "string \<Rightarrow> string \<Rightarrow> string \<times> string" where
  \<comment> \<open>the token read, and the text left, which is empty or starts with a terminating character\<close>
  "readUntilCharacter text terminating =
     (takeWhile (\<lambda>c. c \<notin> set terminating) text, dropWhile (\<lambda>c. c \<notin> set terminating) text)"

definition or_undefined :: "string \<Rightarrow> string option" where
  \<comment> \<open>\<open>token.text || undefined\<close>\<close>
  "or_undefined t = (if t = [] then None else Some t)"

definition nextPath :: "string option \<Rightarrow> string \<Rightarrow> URLBuilder" where
  \<comment> \<open>state \<open>PATH\<close>; the query that may follow the path is not read by the source\<close>
  "nextPath host text =
     (let (path, rest) = readUntilCharacter text ''?''
      in \<lparr>getHost = host, getPath = or_undefined path\<rparr>)"

definition afterHost :: "string option \<Rightarrow> string \<Rightarrow> URLBuilder" where
  \<comment> \<open>the states that can follow a host token: \<open>DONE\<close>, \<open>PORT\<close>, \<open>PATH\<close> or \<open>QUERY\<close>\<close>
  "afterHost host text =
     (case text of
        [] \<Rightarrow> \<lparr>getHost = host, getPath = None\<rparr>
      | c # cs \<Rightarrow>
          if c = CHR '':'' then
            (let (port, rest) = readUntilCharacter cs ''/?''
             in case rest of
                  [] \<Rightarrow> \<lparr>getHost = host, getPath = None\<rparr>
                | d # ds \<Rightarrow> if d = CHR ''/'' then nextPath host rest
                           else \<lparr>getHost = host, getPath = None\<rparr>)
          else if c = CHR ''/'' then nextPath host text
          else \<lparr>getHost = host, getPath = None\<rparr>)"

definition nextHost :: "string \<Rightarrow> URLBuilder" where
  \<comment> \<open>state \<open>HOST\<close>, entered after a scheme: skips \<open>://\<close> and reads the host\<close>
  "nextHost text =
     (let text' = (if take 3 text = ''://'' then drop 3 text else text);
          (host, rest) = readUntilCharacter text' '':/?''
      in afterHost (or_undefined host) rest)"

definition URLBuilder_parse :: "string \<Rightarrow> URLBuilder" where
  "URLBuilder_parse text =
     (if text = [] then \<lparr>getHost = None, getPath = None\<rparr>
      else
        (let (schemeOrHost, rest) = readUntilCharacter text '':/?''
         in if rest \<noteq> [] \<and> take 3 rest = ''://'' then nextHost rest
            else afterHost (or_undefined schemeOrHost) rest))"

section \<open>Errors and results\<close>

text \<open>
  The source raises \<open>Error\<close> objects that differ in their message, and the runtime raises a
  \<open>TypeError\<close> when a property of \<open>null\<close> or \<open>undefined\<close> is read. Each message is
  a constructor, named as the specification classifies it.
\<close>

datatype error =
    InvalidProtocol
      \<comment> \<open>"Invalid DefaultEndpointsProtocol in the provided Connection String. Expecting 'https' or 'http'"\<close>
  | InvalidEndpointSuffix
      \<comment> \<open>"Invalid EndpointSuffix in the provided Connection String"\<close>
  | InvalidAccountName
      \<comment> \<open>"Invalid AccountName in the provided Connection String"\<close>
  | InvalidAccountKey
      \<comment> \<open>"Invalid AccountKey in the provided Connection String"\<close>
  | InvalidBlobEndpoint
      \<comment> \<open>"Invalid BlobEndpoint in the provided SAS Connection String"\<close>
  | InvalidSharedAccessSignature
      \<comment> \<open>"Invalid SharedAccessSignature in the provided SAS Connection String"\<close>
  | InvalidAccountNameSAS
      \<comment> \<open>"Invalid AccountName in the provided SAS Connection String"\<close>
  | ProvidedAccountNameInvalid
      \<comment> \<open>"Provided accountName is invalid."; raised and caught inside \<open>getAccountNameFromUrl\<close>\<close>
  | UnparseableHost
      \<comment> \<open>"Unable to extract accountName with provided information."\<close>
  | TypeError
      \<comment> \<open>the runtime's error for reading a property of \<open>null\<close> or \<open>undefined\<close>\<close>
  | SdkError string
      \<comment> \<open>an error raised inside the storage SDK\<close>
  | UnsupportedCredentialKind
      \<comment> \<open>named by the specification; no statement of the source raises it\<close>

definition bind :: "error + 'a \<Rightarrow> ('a \<Rightarrow> error + 'b) \<Rightarrow> error + 'b" where
  \<comment> \<open>sequencing of statements: an exception ends the evaluation\<close>
  "bind m f = (case m of Inl e \<Rightarrow> Inl e | Inr x \<Rightarrow> f x)"

text \<open>
  The object that \<open>extractConnectionStringParts\<close> returns, tagged by its field \<open>kind\<close>;
  the selector of a field \<open>f\<close> is \<open>f_of\<close>.
\<close>

datatype ConnectionString =
    AccountConnString (url_of: string) (accountName_of: string) (accountKey_of: "byte list")
      (proxyUri_of: string)
  | SASConnString (url_of: string) (accountName_of: string) (accountSas_of: string)

section \<open>The parser of connection strings\<close>

text \<open>
  Modelled from the spec: the constant \<open>DevelopmentConnectionString\<close>, which
  \<open>extractConnectionStringParts\<close> reads and the source files do not define. The
  specification calls it the fixed, well-known emulator connection string; this is the
  connection string of the storage emulator's well-known account.
\<close>

definition DevelopmentConnectionString :: string where
  "DevelopmentConnectionString =
     ''DefaultEndpointsProtocol=http;AccountName=devstoreaccount1;'' @
     ''AccountKey=Eby8vdM02xNOcqFlqUwJPLlmEtlCDXJ1OUzFT50uSRZ6IFsuFq2UVErCz4I6tq/K1SZFPTOtr/KBHBeksoGMGw==;'' @
     ''BlobEndpoint=http://127.0.0.1:10000/devstoreaccount1;''"

definition getAccountNameFromUrl_try :: "URLBuilder \<Rightarrow> error + string" where
  \<comment> \<open>the body of the \<open>try\<close> block\<close>
  "getAccountNameFromUrl_try parsedUrl =
     (case getHost parsedUrl of
        None \<Rightarrow> Inl TypeError
      | Some host \<Rightarrow>
          bind (if nth_opt (split host (CHR ''.'')) 1 = Some ''blob''
                then Inr (nth_opt (split host (CHR ''.'')) 0)
                else (case getPath parsedUrl of
                        None \<Rightarrow> Inl TypeError
                      | Some path \<Rightarrow> Inr (nth_opt (split path (CHR ''/'')) 1)))
            (\<lambda>accountName.
               case accountName of
                 None \<Rightarrow> Inl ProvidedAccountNameInvalid
               | Some name \<Rightarrow> if name = [] then Inl ProvidedAccountNameInvalid else Inr name))"

definition getAccountNameFromUrl :: "string \<Rightarrow> error + string" where
  "getAccountNameFromUrl url =
     (let parsedUrl = URLBuilder_parse url
      in case getAccountNameFromUrl_try parsedUrl of
           Inl error \<Rightarrow> Inl UnparseableHost
         | Inr accountName \<Rightarrow> Inr accountName)"

fun getProxyUri_loop :: "string list \<Rightarrow> string \<Rightarrow> error + string" where
  \<comment> \<open>the \<open>for\<close> loop of \<open>getProxyUriFromDevConnString\<close>, with the variable \<open>proxyUri\<close>
      as second argument\<close>
  "getProxyUri_loop [] proxyUri = Inr proxyUri"
| "getProxyUri_loop (element # rest) proxyUri =
     (if startsWith (trim element) ''DevelopmentStorageProxyUri=''
      then (case match_group1 (trim element) ''DevelopmentStorageProxyUri='' of
              None \<Rightarrow> Inl TypeError
            | Some v \<Rightarrow> getProxyUri_loop rest v)
      else getProxyUri_loop rest proxyUri)"

definition getProxyUriFromDevConnString :: "string \<Rightarrow> error + string" where
  "getProxyUriFromDevConnString connectionString =
     (if search connectionString ''DevelopmentStorageProxyUri='' \<noteq> - 1
      then getProxyUri_loop (split connectionString (CHR '';'')) []
      else Inr [])"

fun getValue_loop :: "string list \<Rightarrow> string \<Rightarrow> error + string" where
  \<comment> \<open>the \<open>for\<close> loop of \<open>getValueInConnString\<close>\<close>
  "getValue_loop [] argument = Inr []"
| "getValue_loop (element # rest) argument =
     (if startsWith (trim element) argument
      then (case match_group1 (trim element) (argument @ ''='') of
              None \<Rightarrow> Inl TypeError
            | Some v \<Rightarrow> Inr v)
      else getValue_loop rest argument)"

definition getValueInConnString :: "string \<Rightarrow> string \<Rightarrow> error + string" where
  "getValueInConnString connectionString argument =
     getValue_loop (split connectionString (CHR '';'')) argument"

definition accountBranch :: "string \<Rightarrow> string \<Rightarrow> string \<Rightarrow> error + ConnectionString" where
  \<comment> \<open>the branch "Account connection string" of \<open>extractConnectionStringParts\<close>, a function
      of the variables \<open>connectionString\<close>, \<open>blobEndpoint\<close> and \<open>proxyUri\<close>\<close>
  "accountBranch connectionString blobEndpoint0 proxyUri =
     bind (getValueInConnString connectionString ''AccountName'') (\<lambda>accountName.
     bind (getValueInConnString connectionString ''AccountKey'') (\<lambda>accountKeyText.
     let accountKey = Buffer_from_base64 accountKeyText in
     bind (if blobEndpoint0 = [] then
             bind (getValueInConnString connectionString ''DefaultEndpointsProtocol'')
               (\<lambda>defaultEndpointsProtocol.
             let protocol = toLowerCase defaultEndpointsProtocol in
             if protocol \<noteq> ''https'' \<and> protocol \<noteq> ''http'' then Inl InvalidProtocol
             else
               bind (getValueInConnString connectionString ''EndpointSuffix'') (\<lambda>endpointSuffix.
               if endpointSuffix = [] then Inl InvalidEndpointSuffix
               else Inr (defaultEndpointsProtocol @ ''://'' @ accountName @ ''.blob.'' @ endpointSuffix)))
           else Inr blobEndpoint0) (\<lambda>blobEndpoint.
     if accountName = [] then Inl InvalidAccountName
     else if length accountKey = 0 then Inl InvalidAccountKey
     else Inr (AccountConnString blobEndpoint accountName accountKey proxyUri))))"

definition sasBranch :: "string \<Rightarrow> string \<Rightarrow> error + ConnectionString" where
  \<comment> \<open>the branch "SAS connection string"\<close>
  "sasBranch connectionString blobEndpoint =
     bind (getValueInConnString connectionString ''SharedAccessSignature'') (\<lambda>accountSas.
     bind (getAccountNameFromUrl blobEndpoint) (\<lambda>accountName.
     if blobEndpoint = [] then Inl InvalidBlobEndpoint
     else if accountSas = [] then Inl InvalidSharedAccessSignature
     else if accountName = [] then Inl InvalidAccountNameSAS
     else Inr (SASConnString blobEndpoint accountName accountSas)))"

definition resolveDevelopment :: "string \<Rightarrow> error + (string \<times> string)" where
  \<comment> \<open>the first statements of \<open>extractConnectionStringParts\<close>: the values of \<open>proxyUri\<close>
      and \<open>connectionString\<close> after them\<close>
  "resolveDevelopment connectionString =
     (if startsWith connectionString ''UseDevelopmentStorage=true''
      then bind (getProxyUriFromDevConnString connectionString)
             (\<lambda>proxyUri. Inr (proxyUri, DevelopmentConnectionString))
      else Inr ([], connectionString))"

definition readBlobEndpoint :: "string \<Rightarrow> error + string" where
  \<comment> \<open>the value of \<open>blobEndpoint\<close> when the branch is chosen\<close>
  "readBlobEndpoint connectionString =
     bind (getValueInConnString connectionString ''BlobEndpoint'') (\<lambda>blobEndpoint.
     Inr (if endsWith blobEndpoint ''/'' then slice_0_m1 blobEndpoint else blobEndpoint))"

definition isAccountConnectionString :: "string \<Rightarrow> bool" where
  \<comment> \<open>the condition of the \<open>if\<close> that chooses the branch\<close>
  "isAccountConnectionString connectionString =
     (search connectionString ''DefaultEndpointsProtocol='' \<noteq> - 1 \<and>
      search connectionString ''AccountKey='' \<noteq> - 1)"

definition extractConnectionStringParts :: "string \<Rightarrow> error + ConnectionString" where
  "extractConnectionStringParts connectionString0 =
     bind (resolveDevelopment connectionString0) (\<lambda>(proxyUri, connectionString).
     bind (readBlobEndpoint connectionString) (\<lambda>blobEndpoint.
     if isAccountConnectionString connectionString
     then accountBranch connectionString blobEndpoint proxyUri
     else sasBranch connectionString blobEndpoint))"

fun kind_of :: "ConnectionString \<Rightarrow> string" where
  "kind_of (AccountConnString u n k p) = ''AccountConnString''"
| "kind_of (SASConnString u n sas) = ''SASConnString''"

fun accountKey_field :: "ConnectionString \<Rightarrow> byte list option" where
  \<comment> \<open>reading the property \<open>accountKey\<close> of the object: \<open>None\<close> is \<open>undefined\<close>\<close>
  "accountKey_field (AccountConnString u n k p) = Some k"
| "accountKey_field (SASConnString u n sas) = None"

text \<open>
  The branch that \<open>extractConnectionStringParts\<close> takes, as a function of its argument:
  what it computes when the condition of its \<open>if\<close> holds, and what it computes when
  the condition fails.
\<close>

definition accountKeyPath :: "string \<Rightarrow> error + ConnectionString" where
  "accountKeyPath connectionString0 =
     bind (resolveDevelopment connectionString0) (\<lambda>(proxyUri, connectionString).
     bind (readBlobEndpoint connectionString) (\<lambda>blobEndpoint.
     accountBranch connectionString blobEndpoint proxyUri))"

definition sasPath :: "string \<Rightarrow> error + ConnectionString" where
  "sasPath connectionString0 =
     bind (resolveDevelopment connectionString0) (\<lambda>(proxyUri, connectionString).
     bind (readBlobEndpoint connectionString) (\<lambda>blobEndpoint.
     sasBranch connectionString blobEndpoint))"

section \<open>The issuer of SAS tokens\<close>

text \<open>
  \<open>generateSasToken\<close> calls the storage SDK, which is not part of the sources: the model
  takes it as a parameter. \<open>StorageSharedKeyCredential\<close> stores its two arguments, so a
  credential is the pair of them. The clock is a parameter too: \<open>now\<close> is the value of
  \<open>new Date()\<close> in milliseconds, and two hours later is \<open>now + 7200000\<close> (a change of the
  local time offset within these two hours is outside the model).
\<close>

record StorageBlob =
  ContainerSASPermissions_parse :: "string \<Rightarrow> error + string"
  generateBlobSASQueryParameters :: "string \<Rightarrow> string \<Rightarrow> int \<Rightarrow> string \<times> string \<Rightarrow> error + string"

record SasToken =
  sasKey :: string
  url :: string

definition generateSasToken ::
  "StorageBlob \<Rightarrow> int \<Rightarrow> string \<Rightarrow> string \<Rightarrow> string \<Rightarrow> error + SasToken" where
  "generateSasToken sdk now connectionString container permissions =
     bind (extractConnectionStringParts connectionString) (\<lambda>parts.
     bind (case accountKey_field parts of
             None \<Rightarrow> Inl TypeError
           | Some accountKey \<Rightarrow> Inr (accountName_of parts, Buffer_toString_base64 accountKey))
       (\<lambda>sharedKeyCredential.
     let expiryDate = now + 2 * 3600000 in
     bind (ContainerSASPermissions_parse sdk permissions) (\<lambda>parsedPermissions.
     bind (generateBlobSASQueryParameters sdk container parsedPermissions expiryDate
             sharedKeyCredential) (\<lambda>sasKeyText.
     Inr \<lparr>sasKey = sasKeyText, url = url_of parts\<rparr>))))"

text \<open>
  An SDK whose signer answers with a fixed string, for running the issuer on concrete
  inputs.
\<close>

definition fixedSigner :: StorageBlob where
  "fixedSigner =
     \<lparr>ContainerSASPermissions_parse = (\<lambda>permissions. Inr permissions),
      generateBlobSASQueryParameters = (\<lambda>container permissions expiresOn credential. Inr ''sig=fixed'')\<rparr>"

section \<open>Properties of the library functions\<close>

lemma bind_Inl: "bind (Inl e) f = Inl e"
  by (simp add: bind_def)

lemma bind_Inr: "bind (Inr x) f = f x"
  by (simp add: bind_def)

lemma startsWith_append: "startsWith (lit @ b) lit"
  by (simp add: startsWith_def)

lemma search_ge: "- 1 \<le> search s lit"
  by (induction s) (auto simp: Let_def)

lemma search_found: "search (a @ lit @ b) lit \<noteq> - 1"
proof (induction a)
  case Nil
  show ?case
  proof (cases "lit @ b")
    case Nil
    then show ?thesis by simp
  next
    case (Cons c cs)
    have "startsWith (c # cs) lit"
      using startsWith_append [of lit b] Cons by simp
    then show ?thesis using Cons by simp
  qed
next
  case (Cons x a)
  have "- 1 \<le> search (a @ lit @ b) lit" by (rule search_ge)
  with Cons.IH have "0 \<le> search (a @ lit @ b) lit" by linarith
  then show ?case by (simp add: Let_def)
qed

lemma search_found_iff: "search s lit \<noteq> - 1 \<longleftrightarrow> (\<exists>a b. s = a @ lit @ b)"
proof
  show "search s lit \<noteq> - 1 \<Longrightarrow> \<exists>a b. s = a @ lit @ b"
  proof (induction s)
    case Nil
    then have "lit = []" by (simp split: if_splits)
    then show ?case by simp
  next
    case (Cons c cs)
    show ?case
    proof (cases "startsWith (c # cs) lit")
      case True
      then have "c # cs = [] @ lit @ drop (length lit) (c # cs)"
        by (metis append_Nil append_take_drop_id startsWith_def)
      then show ?thesis by blast
    next
      case False
      with Cons.prems have "search cs lit \<noteq> - 1"
        by (auto simp: Let_def split: if_splits)
      with Cons.IH obtain a b where "cs = a @ lit @ b" by blast
      then have "c # cs = (c # a) @ lit @ b" by simp
      then show ?thesis by blast
    qed
  qed
next
  show "\<exists>a b. s = a @ lit @ b \<Longrightarrow> search s lit \<noteq> - 1"
    using search_found by blast
qed

section \<open>Properties of the parser's parts\<close>

lemma getValue_loop_error: "getValue_loop elements argument = Inl e \<Longrightarrow> e = TypeError"
  by (induction elements) (auto split: if_splits option.splits)

lemma getValueInConnString_error: "getValueInConnString s argument = Inl e \<Longrightarrow> e = TypeError"
  unfolding getValueInConnString_def by (rule getValue_loop_error)

lemma readBlobEndpoint_error: "readBlobEndpoint s = Inl e \<Longrightarrow> e = TypeError"
  unfolding readBlobEndpoint_def bind_def
  by (auto split: sum.splits dest: getValueInConnString_error)

lemma getProxyUri_loop_error: "getProxyUri_loop elements p = Inl e \<Longrightarrow> e = TypeError"
  by (induction elements arbitrary: p) (auto split: if_splits option.splits)

lemma resolveDevelopment_error: "resolveDevelopment s = Inl e \<Longrightarrow> e = TypeError"
  unfolding resolveDevelopment_def getProxyUriFromDevConnString_def bind_def
  by (auto split: sum.splits if_splits dest: getProxyUri_loop_error)

lemma resolveDevelopment_plain:
  "\<not> startsWith s ''UseDevelopmentStorage=true'' \<Longrightarrow> resolveDevelopment s = Inr ([], s)"
  by (simp add: resolveDevelopment_def)

lemma Development_isAccount: "isAccountConnectionString DevelopmentConnectionString"
  by code_simp

lemma resolveDevelopment_emulator:
  "startsWith s ''UseDevelopmentStorage=true'' \<Longrightarrow> resolveDevelopment s = Inr (p, cs)
     \<Longrightarrow> cs = DevelopmentConnectionString"
  unfolding resolveDevelopment_def bind_def by (auto split: sum.splits)

lemma getAccountNameFromUrl_error: "getAccountNameFromUrl u = Inl e \<Longrightarrow> e = UnparseableHost"
  unfolding getAccountNameFromUrl_def by (auto simp: Let_def split: sum.splits)

lemma getAccountNameFromUrl_nonempty: "getAccountNameFromUrl u = Inr n \<Longrightarrow> n \<noteq> []"
  unfolding getAccountNameFromUrl_def getAccountNameFromUrl_try_def bind_def
  by (auto simp: Let_def split: sum.splits option.splits if_splits)

lemma getAccountNameFromUrl_empty: "getAccountNameFromUrl [] = Inl UnparseableHost"
  by (simp add: getAccountNameFromUrl_def getAccountNameFromUrl_try_def URLBuilder_parse_def)

lemma accountBranch_kind: "accountBranch cs be p = Inr c \<Longrightarrow> kind_of c = ''AccountConnString''"
  unfolding accountBranch_def bind_def
  by (auto simp: Let_def split: sum.splits if_splits)

lemma accountBranch_error:
  "accountBranch cs be p = Inl e \<Longrightarrow>
     e \<in> {TypeError, InvalidProtocol, InvalidEndpointSuffix, InvalidAccountName, InvalidAccountKey}"
  unfolding accountBranch_def bind_def
  by (auto simp: Let_def split: sum.splits if_splits dest: getValueInConnString_error)

lemma sasBranch_kind: "sasBranch cs be = Inr c \<Longrightarrow> kind_of c = ''SASConnString''"
  unfolding sasBranch_def bind_def
  by (auto split: sum.splits if_splits)

lemma sasBranch_error:
  "sasBranch cs be = Inl e \<Longrightarrow> e \<in> {TypeError, UnparseableHost, InvalidSharedAccessSignature}"
  unfolding sasBranch_def bind_def
  by (auto split: sum.splits if_splits
        dest: getValueInConnString_error getAccountNameFromUrl_error getAccountNameFromUrl_nonempty
        simp: getAccountNameFromUrl_empty)

lemma extract_emulator_route:
  assumes "startsWith s ''UseDevelopmentStorage=true''"
  shows "extractConnectionStringParts s = accountKeyPath s"
proof (cases "resolveDevelopment s")
  case (Inl e)
  then show ?thesis
    by (simp add: extractConnectionStringParts_def accountKeyPath_def bind_Inl)
next
  case (Inr pc)
  obtain p cs where pc: "pc = (p, cs)" by (cases pc)
  with assms Inr have "cs = DevelopmentConnectionString"
    using resolveDevelopment_emulator by blast
  with Inr pc show ?thesis
    by (simp add: extractConnectionStringParts_def accountKeyPath_def bind_Inr Development_isAccount)
qed

lemma extract_account_route:
  assumes "isAccountConnectionString s"
  shows "extractConnectionStringParts s = accountKeyPath s"
proof (cases "startsWith s ''UseDevelopmentStorage=true''")
  case True
  then show ?thesis by (rule extract_emulator_route)
next
  case False
  with assms show ?thesis
    by (simp add: extractConnectionStringParts_def accountKeyPath_def resolveDevelopment_plain bind_Inr)
qed

lemma extract_sas_route:
  "\<not> startsWith s ''UseDevelopmentStorage=true'' \<Longrightarrow> \<not> isAccountConnectionString s
     \<Longrightarrow> extractConnectionStringParts s = sasPath s"
  by (simp add: extractConnectionStringParts_def sasPath_def resolveDevelopment_plain bind_Inr)

lemma accountKeyPath_kind: "accountKeyPath s = Inr c \<Longrightarrow> kind_of c = ''AccountConnString''"
  unfolding accountKeyPath_def bind_def
  by (auto split: sum.splits prod.splits dest: accountBranch_kind)

lemma accountKeyPath_error:
  "accountKeyPath s = Inl e \<Longrightarrow>
     e \<in> {TypeError, InvalidProtocol, InvalidEndpointSuffix, InvalidAccountName, InvalidAccountKey}"
  unfolding accountKeyPath_def bind_def
  by (auto split: sum.splits prod.splits
        dest: accountBranch_error resolveDevelopment_error readBlobEndpoint_error)

lemma sasPath_error:
  "sasPath s = Inl e \<Longrightarrow> e \<in> {TypeError, UnparseableHost, InvalidSharedAccessSignature}"
  unfolding sasPath_def bind_def
  by (auto split: sum.splits prod.splits
        dest: sasBranch_error resolveDevelopment_error readBlobEndpoint_error)

section \<open>The claims\<close>

text \<open>
  C1. The claim: every connection string that contains \<open>DefaultEndpointsProtocol=\<close> and
  does not contain \<open>AccountKey=\<close> fails with \<open>InvalidAccountKey\<close> and never reaches the
  SAS branch. The source chooses the Account-Key branch only when both literals occur, so
  such a string is parsed by the SAS branch, and may parse to a SAS credential: the claim
  fails at the string below.
\<close>

theorem missing_AccountKey_parsed_as_sas:
  "search ''DefaultEndpointsProtocol=https;BlobEndpoint=https://acct.blob.core.windows.net;SharedAccessSignature=sv=1''
      ''DefaultEndpointsProtocol='' \<noteq> - 1
   \<and> search ''DefaultEndpointsProtocol=https;BlobEndpoint=https://acct.blob.core.windows.net;SharedAccessSignature=sv=1''
      ''AccountKey='' = - 1
   \<and> extractConnectionStringParts
      ''DefaultEndpointsProtocol=https;BlobEndpoint=https://acct.blob.core.windows.net;SharedAccessSignature=sv=1''
      = Inr (SASConnString ''https://acct.blob.core.windows.net'' ''acct'' ''sv=1'')
   \<and> extractConnectionStringParts
      ''DefaultEndpointsProtocol=https;BlobEndpoint=https://acct.blob.core.windows.net;SharedAccessSignature=sv=1''
      \<noteq> Inl InvalidAccountKey"
  by code_simp

text \<open>
  C1, as amended: every connection string that contains \<open>DefaultEndpointsProtocol=\<close>, does
  not contain \<open>AccountKey=\<close> and does not begin with the emulator literal is parsed by the
  SAS branch, and never fails with \<open>InvalidAccountKey\<close>.
\<close>

theorem missing_AccountKey_routes_to_sas:
  assumes "search s ''DefaultEndpointsProtocol='' \<noteq> - 1"
    and "search s ''AccountKey='' = - 1"
    and "\<not> startsWith s ''UseDevelopmentStorage=true''"
  shows "extractConnectionStringParts s = sasPath s
         \<and> extractConnectionStringParts s \<noteq> Inl InvalidAccountKey"
proof -
  from assms(2) have "\<not> isAccountConnectionString s"
    by (simp add: isAccountConnectionString_def)
  with assms(3) have route: "extractConnectionStringParts s = sasPath s"
    by (rule extract_sas_route)
  have "sasPath s \<noteq> Inl InvalidAccountKey"
    using sasPath_error [of s InvalidAccountKey] by auto
  with route show ?thesis by simp
qed

theorem missing_AccountKey_routes_to_sas_witness:
  "search ''DefaultEndpointsProtocol=https;AccountName=acct;EndpointSuffix=core.windows.net''
      ''DefaultEndpointsProtocol='' \<noteq> - 1
   \<and> search ''DefaultEndpointsProtocol=https;AccountName=acct;EndpointSuffix=core.windows.net''
      ''AccountKey='' = - 1
   \<and> \<not> startsWith ''DefaultEndpointsProtocol=https;AccountName=acct;EndpointSuffix=core.windows.net''
      ''UseDevelopmentStorage=true''
   \<and> extractConnectionStringParts
        ''DefaultEndpointsProtocol=https;AccountName=acct;EndpointSuffix=core.windows.net''
      = sasPath ''DefaultEndpointsProtocol=https;AccountName=acct;EndpointSuffix=core.windows.net''
   \<and> extractConnectionStringParts
        ''DefaultEndpointsProtocol=https;AccountName=acct;EndpointSuffix=core.windows.net''
      \<noteq> Inl InvalidAccountKey"
proof -
  have h1: "search ''DefaultEndpointsProtocol=https;AccountName=acct;EndpointSuffix=core.windows.net''
      ''DefaultEndpointsProtocol='' \<noteq> - 1"
    by code_simp
  have h2: "search ''DefaultEndpointsProtocol=https;AccountName=acct;EndpointSuffix=core.windows.net''
      ''AccountKey='' = - 1"
    by code_simp
  have h3: "\<not> startsWith ''DefaultEndpointsProtocol=https;AccountName=acct;EndpointSuffix=core.windows.net''
      ''UseDevelopmentStorage=true''"
    by code_simp
  from missing_AccountKey_routes_to_sas [OF h1 h2 h3] h1 h2 h3 show ?thesis
    by blast
qed

text \<open>
  C2. The claim: issuing from a SAS credential fails with \<open>UnsupportedCredentialKind\<close>,
  through an explicit guard in the issuer. \<open>generateSasToken\<close> has no guard: it reads the
  property \<open>accountKey\<close>, which a SAS credential does not have, and calls \<open>toString\<close> on
  \<open>undefined\<close>. The failure is the runtime's \<open>TypeError\<close>, as at the input below.
\<close>

theorem sas_credential_issue_not_classified:
  "extractConnectionStringParts
      ''BlobEndpoint=https://foo.blob.core.example.com;SharedAccessSignature=sv=1''
      = Inr (SASConnString ''https://foo.blob.core.example.com'' ''foo'' ''sv=1'')
   \<and> generateSasToken fixedSigner 0
      ''BlobEndpoint=https://foo.blob.core.example.com;SharedAccessSignature=sv=1'' ''images'' ''c''
      = Inl TypeError
   \<and> generateSasToken fixedSigner 0
      ''BlobEndpoint=https://foo.blob.core.example.com;SharedAccessSignature=sv=1'' ''images'' ''c''
      \<noteq> Inl UnsupportedCredentialKind"
  by code_simp

text \<open>
  C2, as amended: for every connection string that parses to a SAS credential, and every
  SDK, clock, container and permission string, \<open>generateSasToken\<close> fails with the
  runtime's \<open>TypeError\<close>, raised where it reads the account key; no grant is returned.
\<close>

theorem sas_credential_issue_TypeError:
  assumes "extractConnectionStringParts s = Inr parts"
    and "kind_of parts = ''SASConnString''"
  shows "generateSasToken sdk now s container permissions = Inl TypeError"
proof -
  from assms(2) have "accountKey_field parts = None"
    by (cases parts) simp_all
  with assms(1) show ?thesis
    by (simp add: generateSasToken_def bind_Inr bind_Inl)
qed

theorem sas_credential_issue_TypeError_witness:
  "extractConnectionStringParts
      ''BlobEndpoint=http://localhost:10001/devstoreaccount1/;SharedAccessSignature=sv=1''
      = Inr (SASConnString ''http://localhost:10001/devstoreaccount1'' ''devstoreaccount1'' ''sv=1'')
   \<and> kind_of (SASConnString ''http://localhost:10001/devstoreaccount1'' ''devstoreaccount1'' ''sv=1'')
      = ''SASConnString''
   \<and> generateSasToken fixedSigner 1000
      ''BlobEndpoint=http://localhost:10001/devstoreaccount1/;SharedAccessSignature=sv=1''
      ''images'' ''c'' = Inl TypeError"
proof -
  have h1: "extractConnectionStringParts
      ''BlobEndpoint=http://localhost:10001/devstoreaccount1/;SharedAccessSignature=sv=1''
      = Inr (SASConnString ''http://localhost:10001/devstoreaccount1'' ''devstoreaccount1'' ''sv=1'')"
    by code_simp
  have h2: "kind_of (SASConnString ''http://localhost:10001/devstoreaccount1'' ''devstoreaccount1'' ''sv=1'')
      = ''SASConnString''"
    by simp
  from sas_credential_issue_TypeError [OF h1 h2] h1 h2 show ?thesis
    by blast
qed

text \<open>
  C3. The claim: after a successful parse the URL does not end with \<open>/\<close>, the account name
  is not empty, and the account key or the shared access signature is not empty. The
  source removes one \<open>/\<close> from the end of \<open>BlobEndpoint\<close>, with the comment that its
  callers expect a URL without \<open>/\<close> at the end; an endpoint that ends with two keeps one.
\<close>

theorem doubled_separator_endpoint_keeps_one:
  "extractConnectionStringParts
      ''DefaultEndpointsProtocol=https;AccountName=acct;AccountKey=YWJj;BlobEndpoint=https://acct.blob.core.windows.net//''
      = Inr (AccountConnString ''https://acct.blob.core.windows.net/'' ''acct'' [97, 98, 99] [])
   \<and> endsWith (url_of (AccountConnString ''https://acct.blob.core.windows.net/'' ''acct'' [97, 98, 99] []))
        ''/''"
  by code_simp

text \<open>
  C4. The claim: on the SAS branch, a connection string without \<open>BlobEndpoint\<close> fails with
  \<open>InvalidBlobEndpoint\<close>. The source has this check, but calls \<open>getAccountNameFromUrl\<close>
  on the empty endpoint before it, and that call fails first.
\<close>

theorem absent_BlobEndpoint_fails_in_getAccountNameFromUrl:
  "\<not> isAccountConnectionString ''SharedAccessSignature=sv=1''
   \<and> getValueInConnString ''SharedAccessSignature=sv=1'' ''BlobEndpoint'' = Inr []
   \<and> extractConnectionStringParts ''SharedAccessSignature=sv=1'' = Inl UnparseableHost
   \<and> extractConnectionStringParts ''SharedAccessSignature=sv=1'' \<noteq> Inl InvalidBlobEndpoint"
  by code_simp

text \<open>
  C5. Every connection string in which both \<open>DefaultEndpointsProtocol=\<close> and
  \<open>AccountKey=\<close> occur is parsed by the Account-Key branch, and a successful parse gives
  the Account-Key variant, whatever else the string holds, a \<open>SharedAccessSignature\<close>
  field included.
\<close>

theorem account_key_takes_priority:
  assumes "search s ''DefaultEndpointsProtocol='' \<noteq> - 1"
    and "search s ''AccountKey='' \<noteq> - 1"
  shows "extractConnectionStringParts s = accountKeyPath s
         \<and> (\<forall>c. extractConnectionStringParts s = Inr c \<longrightarrow> kind_of c = ''AccountConnString'')"
proof -
  from assms have "isAccountConnectionString s"
    by (simp add: isAccountConnectionString_def)
  then have route: "extractConnectionStringParts s = accountKeyPath s"
    by (rule extract_account_route)
  then show ?thesis
    using accountKeyPath_kind by auto
qed

theorem account_key_takes_priority_witness:
  "search ''DefaultEndpointsProtocol=https;AccountName=acct;AccountKey=YWJj;EndpointSuffix=core.windows.net;SharedAccessSignature=sv=1''
      ''DefaultEndpointsProtocol='' \<noteq> - 1
   \<and> search ''DefaultEndpointsProtocol=https;AccountName=acct;AccountKey=YWJj;EndpointSuffix=core.windows.net;SharedAccessSignature=sv=1''
      ''AccountKey='' \<noteq> - 1
   \<and> getValueInConnString
        ''DefaultEndpointsProtocol=https;AccountName=acct;AccountKey=YWJj;EndpointSuffix=core.windows.net;SharedAccessSignature=sv=1''
        ''SharedAccessSignature'' = Inr ''sv=1''
   \<and> extractConnectionStringParts
        ''DefaultEndpointsProtocol=https;AccountName=acct;AccountKey=YWJj;EndpointSuffix=core.windows.net;SharedAccessSignature=sv=1''
      = Inr (AccountConnString ''https://acct.blob.core.windows.net'' ''acct'' [97, 98, 99] [])
   \<and> kind_of (AccountConnString ''https://acct.blob.core.windows.net'' ''acct'' [97, 98, 99] [])
      = ''AccountConnString''"
proof -
  have h1: "search ''DefaultEndpointsProtocol=https;AccountName=acct;AccountKey=YWJj;EndpointSuffix=core.windows.net;SharedAccessSignature=sv=1''
      ''DefaultEndpointsProtocol='' \<noteq> - 1"
    by code_simp
  have h2: "search ''DefaultEndpointsProtocol=https;AccountName=acct;AccountKey=YWJj;EndpointSuffix=core.windows.net;SharedAccessSignature=sv=1''
      ''AccountKey='' \<noteq> - 1"
    by code_simp
  have h3: "getValueInConnString
        ''DefaultEndpointsProtocol=https;AccountName=acct;AccountKey=YWJj;EndpointSuffix=core.windows.net;SharedAccessSignature=sv=1''
        ''SharedAccessSignature'' = Inr ''sv=1''"
    by code_simp
  have h4: "extractConnectionStringParts
        ''DefaultEndpointsProtocol=https;AccountName=acct;AccountKey=YWJj;EndpointSuffix=core.windows.net;SharedAccessSignature=sv=1''
      = Inr (AccountConnString ''https://acct.blob.core.windows.net'' ''acct'' [97, 98, 99] [])"
    by code_simp
  from account_key_takes_priority [OF h1 h2] h4
  have "kind_of (AccountConnString ''https://acct.blob.core.windows.net'' ''acct'' [97, 98, 99] [])
      = ''AccountConnString''"
    by blast
  with h1 h2 h3 h4 show ?thesis
    by blast
qed

section \<open>A field with a value occurs in the connection string\<close>

lemma split_hd_prefix: "split s sep = x # xs \<Longrightarrow> \<exists>b. s = x @ b"
proof (induction s arbitrary: x xs)
  case Nil
  then show ?case by simp
next
  case (Cons c cs)
  show ?case
  proof (cases "c = sep")
    case True
    with Cons.prems show ?thesis by simp
  next
    case False
    show ?thesis
    proof (cases "split cs sep")
      case Nil
      with False Cons.prems have "x = [c]" by simp
      then show ?thesis by simp
    next
      case (Cons y ys)
      with Cons.IH obtain b where "cs = y @ b" by blast
      moreover from False Cons Cons.prems have "x = c # y" by simp
      ultimately show ?thesis by simp
    qed
  qed
qed

lemma split_element_infix: "e \<in> set (split s sep) \<Longrightarrow> \<exists>a b. s = a @ e @ b"
proof (induction s arbitrary: e)
  case Nil
  then show ?case by simp
next
  case (Cons c cs)
  have later: "\<exists>a b. c # cs = a @ e @ b" if "e \<in> set (split cs sep)"
  proof -
    from that Cons.IH obtain a b where "cs = a @ e @ b" by blast
    then have "c # cs = (c # a) @ e @ b" by simp
    then show ?thesis by blast
  qed
  show ?case
  proof (cases "c = sep")
    case True
    with Cons.prems have "e = [] \<or> e \<in> set (split cs sep)" by auto
    then show ?thesis
    proof
      assume "e = []"
      then have "c # cs = [] @ e @ (c # cs)" by simp
      then show ?thesis by blast
    next
      assume "e \<in> set (split cs sep)"
      then show ?thesis by (rule later)
    qed
  next
    case False
    show ?thesis
    proof (cases "split cs sep")
      case Nil
      with False Cons.prems have "e = [c]" by simp
      then have "c # cs = [] @ e @ cs" by simp
      then show ?thesis by blast
    next
      case (Cons y ys)
      with False Cons.prems have "e = c # y \<or> e \<in> set ys" by auto
      then show ?thesis
      proof
        assume e: "e = c # y"
        from Cons obtain b where "cs = y @ b" using split_hd_prefix by blast
        with e have "c # cs = [] @ e @ b" by simp
        then show ?thesis by blast
      next
        assume "e \<in> set ys"
        with Cons have "e \<in> set (split cs sep)" by simp
        then show ?thesis by (rule later)
      qed
    qed
  qed
qed

lemma trim_infix: "\<exists>a b. e = a @ trim e @ b"
proof -
  define m where "m = dropWhile isWhiteSpace e"
  have "e = takeWhile isWhiteSpace e @ m"
    by (simp add: m_def)
  moreover have "rev m = takeWhile isWhiteSpace (rev m) @ dropWhile isWhiteSpace (rev m)"
    by simp
  then have "m = rev (dropWhile isWhiteSpace (rev m)) @ rev (takeWhile isWhiteSpace (rev m))"
    by (metis rev_append rev_rev_ident)
  then have "m = trim e @ rev (takeWhile isWhiteSpace (rev m))"
    by (simp add: trim_def m_def)
  ultimately have "e = takeWhile isWhiteSpace e @ trim e @ rev (takeWhile isWhiteSpace (rev m))"
    by simp
  then show ?thesis by blast
qed

lemma match_group1_infix: "match_group1 t lit = Some v \<Longrightarrow> \<exists>a b. t = a @ lit @ b"
proof (induction t)
  case Nil
  then have "lit = []" by (simp split: if_splits)
  then show ?case by simp
next
  case (Cons c cs)
  show ?case
  proof (cases "startsWith (c # cs) lit")
    case True
    then have "c # cs = [] @ lit @ drop (length lit) (c # cs)"
      by (metis append_Nil append_take_drop_id startsWith_def)
    then show ?thesis by blast
  next
    case False
    with Cons.prems have "match_group1 cs lit = Some v" by simp
    with Cons.IH obtain a b where "cs = a @ lit @ b" by blast
    then have "c # cs = (c # a) @ lit @ b" by simp
    then show ?thesis by blast
  qed
qed

lemma getValue_loop_found:
  "getValue_loop elements k = Inr v \<Longrightarrow> v \<noteq> [] \<Longrightarrow>
     \<exists>e \<in> set elements. \<exists>a b. trim e = a @ (k @ ''='') @ b"
proof (induction elements)
  case Nil
  then show ?case by simp
next
  case (Cons element rest)
  show ?case
  proof (cases "startsWith (trim element) k")
    case True
    with Cons.prems obtain w where "match_group1 (trim element) (k @ ''='') = Some w"
      by (auto split: option.splits)
    then have "\<exists>a b. trim element = a @ (k @ ''='') @ b"
      by (rule match_group1_infix)
    then show ?thesis by simp
  next
    case False
    with Cons.prems have "getValue_loop rest k = Inr v" by simp
    with Cons.IH Cons.prems(2) show ?thesis by simp
  qed
qed

lemma getValue_occurs:
  assumes "getValueInConnString s k = Inr v" and "v \<noteq> []"
  shows "search s (k @ ''='') \<noteq> - 1"
proof -
  from assms obtain e a b where e: "e \<in> set (split s (CHR '';''))"
    and t: "trim e = a @ (k @ ''='') @ b"
    unfolding getValueInConnString_def using getValue_loop_found by blast
  obtain a1 b1 where "e = a1 @ trim e @ b1" using trim_infix by blast
  with t have e2: "e = (a1 @ a) @ (k @ ''='') @ (b @ b1)" by simp
  from e obtain a2 b2 where "s = a2 @ e @ b2" using split_element_infix by blast
  with e2 have "s = (a2 @ a1 @ a) @ (k @ ''='') @ (b @ b1 @ b2)" by simp
  then show ?thesis using search_found by metis
qed

text \<open>
  C6. A connection string of the Account-Key form (not the emulator shorthand) in which
  \<open>BlobEndpoint\<close> has no value, \<open>DefaultEndpointsProtocol\<close> is \<open>http\<close> or \<open>https\<close> up to
  case, and \<open>EndpointSuffix\<close>, \<open>AccountName\<close> and the decoded \<open>AccountKey\<close> are not empty,
  parses to the Account-Key variant whose URL is the protocol as the string writes it,
  then \<open>://\<close>, the account name, \<open>.blob.\<close> and the endpoint suffix. The value of a field
  is what \<open>getValueInConnString\<close> reads. The witness is the example of the claim.
\<close>

theorem synthesized_endpoint:
  assumes "\<not> startsWith s ''UseDevelopmentStorage=true''"
    and "getValueInConnString s ''BlobEndpoint'' = Inr []"
    and "getValueInConnString s ''DefaultEndpointsProtocol'' = Inr protocol"
    and "toLowerCase protocol = ''https'' \<or> toLowerCase protocol = ''http''"
    and "getValueInConnString s ''EndpointSuffix'' = Inr endpointSuffix"
    and "endpointSuffix \<noteq> []"
    and "getValueInConnString s ''AccountName'' = Inr name"
    and "name \<noteq> []"
    and "getValueInConnString s ''AccountKey'' = Inr key"
    and "Buffer_from_base64 key \<noteq> []"
  shows "extractConnectionStringParts s =
           Inr (AccountConnString (protocol @ ''://'' @ name @ ''.blob.'' @ endpointSuffix)
                  name (Buffer_from_base64 key) [])"
proof -
  from assms(4) have "protocol \<noteq> []"
    by (auto simp: toLowerCase_def)
  with assms(3) have p: "search s ''DefaultEndpointsProtocol='' \<noteq> - 1"
    using getValue_occurs [of s "''DefaultEndpointsProtocol''" protocol] by simp
  from assms(10) have "key \<noteq> []"
    by (auto simp: Buffer_from_base64_def List.map_filter_simps)
  with assms(9) have k: "search s ''AccountKey='' \<noteq> - 1"
    using getValue_occurs [of s "''AccountKey''" key] by simp
  from p k have "isAccountConnectionString s"
    by (simp add: isAccountConnectionString_def)
  then have "extractConnectionStringParts s = accountKeyPath s"
    by (rule extract_account_route)
  moreover have "resolveDevelopment s = Inr ([], s)"
    using assms(1) by (rule resolveDevelopment_plain)
  moreover have "readBlobEndpoint s = Inr []"
    using assms(2) by (simp add: readBlobEndpoint_def bind_Inr endsWith_def)
  moreover have "accountBranch s [] [] =
      Inr (AccountConnString (protocol @ ''://'' @ name @ ''.blob.'' @ endpointSuffix)
             name (Buffer_from_base64 key) [])"
    using assms(3-10) by (auto simp: accountBranch_def bind_Inr Let_def)
  ultimately show ?thesis
    by (simp add: accountKeyPath_def bind_Inr)
qed

theorem synthesized_endpoint_witness:
  "extractConnectionStringParts
      ''DefaultEndpointsProtocol=https;AccountName=acct;AccountKey=YWJj;EndpointSuffix=core.windows.net''
    = Inr (AccountConnString ''https://acct.blob.core.windows.net'' ''acct'' [97, 98, 99] [])
   \<and> url_of (AccountConnString ''https://acct.blob.core.windows.net'' ''acct'' [97, 98, 99] [])
      = ''https://acct.blob.core.windows.net''
   \<and> accountName_of (AccountConnString ''https://acct.blob.core.windows.net'' ''acct'' [97, 98, 99] [])
      = ''acct''"
proof -
  let ?s = "''DefaultEndpointsProtocol=https;AccountName=acct;AccountKey=YWJj;EndpointSuffix=core.windows.net''"
  have h1: "\<not> startsWith ?s ''UseDevelopmentStorage=true''" by code_simp
  have h2: "getValueInConnString ?s ''BlobEndpoint'' = Inr []" by code_simp
  have h3: "getValueInConnString ?s ''DefaultEndpointsProtocol'' = Inr ''https''" by code_simp
  have h4: "toLowerCase ''https'' = ''https'' \<or> toLowerCase ''https'' = ''http''" by code_simp
  have h5: "getValueInConnString ?s ''EndpointSuffix'' = Inr ''core.windows.net''" by code_simp
  have h6: "''core.windows.net'' \<noteq> []" by simp
  have h7: "getValueInConnString ?s ''AccountName'' = Inr ''acct''" by code_simp
  have h8: "''acct'' \<noteq> []" by simp
  have h9: "getValueInConnString ?s ''AccountKey'' = Inr ''YWJj''" by code_simp
  have d: "Buffer_from_base64 ''YWJj'' = [97, 98, 99]" by code_simp
  then have h10: "Buffer_from_base64 ''YWJj'' \<noteq> []" by simp
  from synthesized_endpoint [OF h1 h2 h3 h4 h5 h6 h7 h8 h9 h10] d
  show ?thesis by simp
qed

text \<open>
  C7. On the SAS branch the account name comes from the URL of \<open>BlobEndpoint\<close>: when the
  second label of the host, split at \<open>.\<close>, is \<open>blob\<close>, it is the first label of the host;
  for every other host it is the first segment of the path. The parse succeeds with that
  name whenever the name is not empty (an empty name is no account name: the source
  raises instead). The witness holds the two examples of the claim.
\<close>

theorem sas_account_name_from_endpoint:
  assumes "\<not> startsWith s ''UseDevelopmentStorage=true''"
    and "\<not> isAccountConnectionString s"
    and "readBlobEndpoint s = Inr endpoint"
    and "getValueInConnString s ''SharedAccessSignature'' = Inr sas"
    and "sas \<noteq> []"
    and "getHost (URLBuilder_parse endpoint) = Some host"
  shows "(nth_opt (split host (CHR ''.'')) 1 = Some ''blob''
            \<and> nth_opt (split host (CHR ''.'')) 0 = Some label \<and> label \<noteq> []
          \<longrightarrow> getAccountNameFromUrl endpoint = Inr label
              \<and> extractConnectionStringParts s = Inr (SASConnString endpoint label sas))
       \<and> (nth_opt (split host (CHR ''.'')) 1 \<noteq> Some ''blob''
            \<and> getPath (URLBuilder_parse endpoint) = Some path
            \<and> nth_opt (split path (CHR ''/'')) 1 = Some segment \<and> segment \<noteq> []
          \<longrightarrow> getAccountNameFromUrl endpoint = Inr segment
              \<and> extractConnectionStringParts s = Inr (SASConnString endpoint segment sas))"
proof -
  have nonempty: "endpoint \<noteq> []"
    using assms(6) by (auto simp: URLBuilder_parse_def)
  have route: "extractConnectionStringParts s = sasBranch s endpoint"
    using assms(1-3)
    by (simp add: extractConnectionStringParts_def resolveDevelopment_plain bind_Inr)
  have branch: "sasBranch s endpoint = Inr (SASConnString endpoint n sas)"
    if "getAccountNameFromUrl endpoint = Inr n" for n
    using that assms(4,5) nonempty getAccountNameFromUrl_nonempty [OF that]
    by (simp add: sasBranch_def bind_Inr)
  have first: "getAccountNameFromUrl endpoint = Inr label"
    if "nth_opt (split host (CHR ''.'')) 1 = Some ''blob''"
      and "nth_opt (split host (CHR ''.'')) 0 = Some label" and "label \<noteq> []"
    using that assms(6)
    by (simp add: getAccountNameFromUrl_def getAccountNameFromUrl_try_def bind_Inr)
  have second: "getAccountNameFromUrl endpoint = Inr segment"
    if "nth_opt (split host (CHR ''.'')) 1 \<noteq> Some ''blob''"
      and "getPath (URLBuilder_parse endpoint) = Some path"
      and "nth_opt (split path (CHR ''/'')) 1 = Some segment" and "segment \<noteq> []"
    using that assms(6)
    by (simp add: getAccountNameFromUrl_def getAccountNameFromUrl_try_def bind_Inr)
  from route branch first second show ?thesis by auto
qed

theorem sas_account_name_from_endpoint_witness:
  "getAccountNameFromUrl ''https://foo.blob.core.example.com'' = Inr ''foo''
   \<and> extractConnectionStringParts
      ''BlobEndpoint=https://foo.blob.core.example.com;SharedAccessSignature=sv=1''
    = Inr (SASConnString ''https://foo.blob.core.example.com'' ''foo'' ''sv=1'')
   \<and> getAccountNameFromUrl ''http://localhost:10001/devstoreaccount1'' = Inr ''devstoreaccount1''
   \<and> extractConnectionStringParts
      ''BlobEndpoint=http://localhost:10001/devstoreaccount1/;SharedAccessSignature=sv=1''
    = Inr (SASConnString ''http://localhost:10001/devstoreaccount1'' ''devstoreaccount1'' ''sv=1'')"
proof -
  let ?s1 = "''BlobEndpoint=https://foo.blob.core.example.com;SharedAccessSignature=sv=1''"
  let ?s2 = "''BlobEndpoint=http://localhost:10001/devstoreaccount1/;SharedAccessSignature=sv=1''"
  have a1: "\<not> startsWith ?s1 ''UseDevelopmentStorage=true''" by code_simp
  have a2: "\<not> isAccountConnectionString ?s1" by code_simp
  have a3: "readBlobEndpoint ?s1 = Inr ''https://foo.blob.core.example.com''" by code_simp
  have a4: "getValueInConnString ?s1 ''SharedAccessSignature'' = Inr ''sv=1''" by code_simp
  have a5: "''sv=1'' \<noteq> []" by simp
  have a6: "getHost (URLBuilder_parse ''https://foo.blob.core.example.com'')
      = Some ''foo.blob.core.example.com''" by code_simp
  have a7: "nth_opt (split ''foo.blob.core.example.com'' (CHR ''.'')) 1 = Some ''blob''
      \<and> nth_opt (split ''foo.blob.core.example.com'' (CHR ''.'')) 0 = Some ''foo'' \<and> ''foo'' \<noteq> []"
    by code_simp
  have r1: "getAccountNameFromUrl ''https://foo.blob.core.example.com'' = Inr ''foo''
    \<and> extractConnectionStringParts ?s1
      = Inr (SASConnString ''https://foo.blob.core.example.com'' ''foo'' ''sv=1'')"
    using sas_account_name_from_endpoint [OF a1 a2 a3 a4 a5 a6, of "''foo''"] a7 by blast
  have b1: "\<not> startsWith ?s2 ''UseDevelopmentStorage=true''" by code_simp
  have b2: "\<not> isAccountConnectionString ?s2" by code_simp
  have b3: "readBlobEndpoint ?s2 = Inr ''http://localhost:10001/devstoreaccount1''" by code_simp
  have b4: "getValueInConnString ?s2 ''SharedAccessSignature'' = Inr ''sv=1''" by code_simp
  have b6: "getHost (URLBuilder_parse ''http://localhost:10001/devstoreaccount1'') = Some ''localhost''"
    by code_simp
  have b7: "nth_opt (split ''localhost'' (CHR ''.'')) 1 \<noteq> Some ''blob''
      \<and> getPath (URLBuilder_parse ''http://localhost:10001/devstoreaccount1'') = Some ''/devstoreaccount1''
      \<and> nth_opt (split ''/devstoreaccount1'' (CHR ''/'')) 1 = Some ''devstoreaccount1''
      \<and> ''devstoreaccount1'' \<noteq> []"
    by code_simp
  have r2: "getAccountNameFromUrl ''http://localhost:10001/devstoreaccount1'' = Inr ''devstoreaccount1''
    \<and> extractConnectionStringParts ?s2
      = Inr (SASConnString ''http://localhost:10001/devstoreaccount1'' ''devstoreaccount1'' ''sv=1'')"
    using sas_account_name_from_endpoint
      [OF b1 b2 b3 b4 a5 b6, of _ "''/devstoreaccount1''" "''devstoreaccount1''"] b7
    by blast
  from r1 r2 show ?thesis by blast
qed

lemma empty_label_unparseable:
  assumes "getHost (URLBuilder_parse endpoint) = Some host"
    and "nth_opt (split host (CHR ''.'')) 1 = Some ''blob''"
    and "nth_opt (split host (CHR ''.'')) 0 = Some []"
  shows "getAccountNameFromUrl endpoint = Inl UnparseableHost"
  using assms
  by (simp add: getAccountNameFromUrl_def getAccountNameFromUrl_try_def bind_Inr)

text \<open>
  C8. The emulator shorthand with a proxy URI parses to the Account-Key variant of the
  emulator's account: the account name and the account key are those of
  \<open>DevelopmentConnectionString\<close>, and the proxy URI is the one given.
\<close>

theorem emulator_shorthand_with_proxy:
  "extractConnectionStringParts ''UseDevelopmentStorage=true;DevelopmentStorageProxyUri=http://x''
    = Inr (AccountConnString ''http://127.0.0.1:10000/devstoreaccount1'' ''devstoreaccount1''
        (Buffer_from_base64
           ''Eby8vdM02xNOcqFlqUwJPLlmEtlCDXJ1OUzFT50uSRZ6IFsuFq2UVErCz4I6tq/K1SZFPTOtr/KBHBeksoGMGw=='')
        ''http://x'')
   \<and> getValueInConnString DevelopmentConnectionString ''AccountName'' = Inr ''devstoreaccount1''
   \<and> getValueInConnString DevelopmentConnectionString ''AccountKey''
      = Inr ''Eby8vdM02xNOcqFlqUwJPLlmEtlCDXJ1OUzFT50uSRZ6IFsuFq2UVErCz4I6tq/K1SZFPTOtr/KBHBeksoGMGw==''"
  by code_simp

text \<open>
  C9. The claim: when a key occurs in several segments, the first occurrence gives the
  value, \<open>DevelopmentStorageProxyUri\<close> included. \<open>getValueInConnString\<close> returns at the
  first segment that matches; the loop of \<open>getProxyUriFromDevConnString\<close> does not stop
  there and assigns again at every later match, so the last occurrence gives the proxy
  URI.
\<close>

theorem repeated_proxy_uri_last_occurrence:
  "getProxyUriFromDevConnString
      ''UseDevelopmentStorage=true;DevelopmentStorageProxyUri=http://a;DevelopmentStorageProxyUri=http://b''
    = Inr ''http://b''
   \<and> extractConnectionStringParts
      ''UseDevelopmentStorage=true;DevelopmentStorageProxyUri=http://a;DevelopmentStorageProxyUri=http://b''
    = Inr (AccountConnString ''http://127.0.0.1:10000/devstoreaccount1'' ''devstoreaccount1''
        (Buffer_from_base64
           ''Eby8vdM02xNOcqFlqUwJPLlmEtlCDXJ1OUzFT50uSRZ6IFsuFq2UVErCz4I6tq/K1SZFPTOtr/KBHBeksoGMGw=='')
        ''http://b'')
   \<and> getValueInConnString ''BlobEndpoint=http://a;BlobEndpoint=http://b'' ''BlobEndpoint''
    = Inr ''http://a''"
  by code_simp

text \<open>
  C10. The branch is chosen by searching the whole connection string: wherever the two
  literals occur, in either order and with any text before, between and after them, the
  Account-Key branch parses the string. In the witness the first literal is inside the
  value of \<open>BlobEndpoint\<close> and the second is the end of the key \<open>XAccountKey\<close>: the
  string has the fields of the SAS form, and the Account-Key branch rejects it.
\<close>

theorem branch_chosen_by_substring_search:
  "extractConnectionStringParts (a @ ''DefaultEndpointsProtocol='' @ b @ ''AccountKey='' @ c)
     = accountKeyPath (a @ ''DefaultEndpointsProtocol='' @ b @ ''AccountKey='' @ c)
   \<and> extractConnectionStringParts (a @ ''AccountKey='' @ b @ ''DefaultEndpointsProtocol='' @ c)
     = accountKeyPath (a @ ''AccountKey='' @ b @ ''DefaultEndpointsProtocol='' @ c)"
proof -
  have both: "isAccountConnectionString s"
    if "s = a1 @ ''DefaultEndpointsProtocol='' @ b1" and "s = a2 @ ''AccountKey='' @ b2"
    for s a1 b1 a2 b2
    unfolding isAccountConnectionString_def using that search_found by metis
  have "isAccountConnectionString (a @ ''DefaultEndpointsProtocol='' @ b @ ''AccountKey='' @ c)"
    by (rule both [where ?a1.0 = a and ?b1.0 = "b @ ''AccountKey='' @ c"
          and ?a2.0 = "a @ ''DefaultEndpointsProtocol='' @ b" and ?b2.0 = c]) simp_all
  moreover
  have "isAccountConnectionString (a @ ''AccountKey='' @ b @ ''DefaultEndpointsProtocol='' @ c)"
    by (rule both [where ?a1.0 = "a @ ''AccountKey='' @ b" and ?b1.0 = c
          and ?a2.0 = a and ?b2.0 = "b @ ''DefaultEndpointsProtocol='' @ c"]) simp_all
  ultimately show ?thesis
    using extract_account_route by blast
qed

theorem branch_chosen_by_substring_search_witness:
  "getValueInConnString
      ''BlobEndpoint=https://a.blob.x/?DefaultEndpointsProtocol=;SharedAccessSignature=s;XAccountKey=YWJj''
      ''DefaultEndpointsProtocol'' = Inr []
   \<and> getValueInConnString
      ''BlobEndpoint=https://a.blob.x/?DefaultEndpointsProtocol=;SharedAccessSignature=s;XAccountKey=YWJj''
      ''AccountKey'' = Inr []
   \<and> sasPath
      ''BlobEndpoint=https://a.blob.x/?DefaultEndpointsProtocol=;SharedAccessSignature=s;XAccountKey=YWJj''
      = Inr (SASConnString ''https://a.blob.x/?DefaultEndpointsProtocol='' ''a'' ''s'')
   \<and> extractConnectionStringParts
      ''BlobEndpoint=https://a.blob.x/?DefaultEndpointsProtocol=;SharedAccessSignature=s;XAccountKey=YWJj''
      = Inl InvalidAccountName"
proof -
  let ?s = "''BlobEndpoint=https://a.blob.x/?DefaultEndpointsProtocol=;SharedAccessSignature=s;XAccountKey=YWJj''"
  have g1: "getValueInConnString ?s ''DefaultEndpointsProtocol'' = Inr []" by code_simp
  have g2: "getValueInConnString ?s ''AccountKey'' = Inr []" by code_simp
  have g3: "sasPath ?s = Inr (SASConnString ''https://a.blob.x/?DefaultEndpointsProtocol='' ''a'' ''s'')"
    by code_simp
  have shape: "?s = ''BlobEndpoint=https://a.blob.x/?'' @ ''DefaultEndpointsProtocol=''
      @ '';SharedAccessSignature=s;X'' @ ''AccountKey='' @ ''YWJj''"
    by simp
  have path: "accountKeyPath ?s = Inl InvalidAccountName" by code_simp
  have "extractConnectionStringParts ?s = accountKeyPath ?s"
    using branch_chosen_by_substring_search
      [of "''BlobEndpoint=https://a.blob.x/?''" "'';SharedAccessSignature=s;X''" "''YWJj''"]
    unfolding shape [symmetric] by (rule conjunct1)
  with path have "extractConnectionStringParts ?s = Inl InvalidAccountName" by simp
  with g1 g2 g3 show ?thesis by blast
qed

section \<open>Further properties of the parser\<close>

text \<open>
  What a successful parse guarantees: the account name is not empty, and neither is the
  account key of the Account-Key variant nor the shared access signature of the SAS
  variant.
\<close>

lemma accountBranch_fields:
  "accountBranch cs be p = Inr c \<Longrightarrow> accountName_of c \<noteq> [] \<and> accountKey_field c \<noteq> Some []"
  unfolding accountBranch_def bind_def
  by (auto simp: Let_def split: sum.splits if_splits)

lemma sasBranch_fields:
  "sasBranch cs be = Inr c \<Longrightarrow> accountName_of c \<noteq> [] \<and> accountSas_of c \<noteq> []"
  unfolding sasBranch_def bind_def
  by (auto split: sum.splits if_splits)

lemma extract_branches:
  assumes "extractConnectionStringParts s = Inr c"
  shows "(\<exists>cs be p. accountBranch cs be p = Inr c) \<or> (\<exists>cs be. sasBranch cs be = Inr c)"
  using assms unfolding extractConnectionStringParts_def bind_def
  by (auto split: sum.splits prod.splits if_splits)

lemma successful_parse_nonempty_fields:
  assumes "extractConnectionStringParts s = Inr c"
  shows "accountName_of c \<noteq> []
         \<and> (case c of AccountConnString u n k p \<Rightarrow> k \<noteq> [] | SASConnString u n sas \<Rightarrow> sas \<noteq> [])"
proof -
  from assms consider cs be p where "accountBranch cs be p = Inr c"
    | cs be where "sasBranch cs be = Inr c"
    using extract_branches by blast
  then show ?thesis
  proof cases
    case 1
    from accountBranch_fields [OF 1] accountBranch_kind [OF 1] show ?thesis
      by (cases c) auto
  next
    case 2
    from sasBranch_fields [OF 2] sasBranch_kind [OF 2] show ?thesis
      by (cases c) auto
  qed
qed

text \<open>
  No connection string fails with \<open>InvalidBlobEndpoint\<close>: on the SAS branch an empty
  endpoint fails inside \<open>getAccountNameFromUrl\<close>, or earlier where the shared access
  signature is read.
\<close>

lemma InvalidBlobEndpoint_never_raised:
  "extractConnectionStringParts s \<noteq> Inl InvalidBlobEndpoint"
proof (cases "startsWith s ''UseDevelopmentStorage=true'' \<or> isAccountConnectionString s")
  case True
  then have "extractConnectionStringParts s = accountKeyPath s"
    using extract_emulator_route extract_account_route by blast
  then show ?thesis
    using accountKeyPath_error [of s InvalidBlobEndpoint] by auto
next
  case False
  then have "extractConnectionStringParts s = sasPath s"
    using extract_sas_route by blast
  then show ?thesis
    using sasPath_error [of s InvalidBlobEndpoint] by auto
qed

lemma absent_BlobEndpoint_on_sas_branch:
  assumes "\<not> startsWith s ''UseDevelopmentStorage=true''"
    and "\<not> isAccountConnectionString s"
    and "getValueInConnString s ''BlobEndpoint'' = Inr []"
  shows "extractConnectionStringParts s =
           (case getValueInConnString s ''SharedAccessSignature'' of
              Inl e \<Rightarrow> Inl TypeError
            | Inr accountSas \<Rightarrow> Inl UnparseableHost)"
proof -
  have "readBlobEndpoint s = Inr []"
    using assms(3) by (simp add: readBlobEndpoint_def bind_Inr endsWith_def)
  with assms(1,2) have "extractConnectionStringParts s = sasBranch s []"
    by (simp add: extractConnectionStringParts_def resolveDevelopment_plain bind_Inr)
  then show ?thesis
    by (auto simp: sasBranch_def bind_def getAccountNameFromUrl_empty
          split: sum.splits dest: getValueInConnString_error)
qed

text \<open>
  The two loops over the segments. In \<open>getValueInConnString\<close> the first segment that
  starts with the key decides, whatever follows it; in \<open>getProxyUriFromDevConnString\<close>
  the last segment that starts with \<open>DevelopmentStorageProxyUri=\<close> decides, whatever
  precedes it.
\<close>

lemma startsWith_shorter:
  assumes "startsWith t (k @ e)"
  shows "startsWith t k"
proof -
  from assms have "take (length k + length e) t = k @ e"
    by (simp add: startsWith_def)
  then have "take (length k) (take (length k + length e) t) = take (length k) (k @ e)"
    by simp
  then show ?thesis
    by (simp add: startsWith_def min_def)
qed

lemma match_group1_at_start:
  assumes "startsWith t lit" and "lit \<noteq> []"
  shows "match_group1 t lit = Some (takeWhile (\<lambda>x. \<not> isLineTerminator x) (drop (length lit) t))"
proof (cases t)
  case Nil
  with assms show ?thesis by (simp add: startsWith_def)
next
  case (Cons c cs)
  from assms(1) have "startsWith (c # cs) lit" unfolding Cons .
  then show ?thesis unfolding Cons by simp
qed

lemma getValue_loop_first_occurrence:
  assumes "\<forall>e \<in> set before. \<not> startsWith (trim e) k"
    and "startsWith (trim element) (k @ ''='')"
  shows "getValue_loop (before @ element # after) k =
           Inr (takeWhile (\<lambda>x. \<not> isLineTerminator x) (drop (length k + 1) (trim element)))"
  using assms(1)
proof (induction before)
  case Nil
  have "startsWith (trim element) k"
    using assms(2) by (rule startsWith_shorter)
  moreover have "match_group1 (trim element) (k @ ''='') =
      Some (takeWhile (\<lambda>x. \<not> isLineTerminator x) (drop (length (k @ ''='')) (trim element)))"
    using assms(2) by (rule match_group1_at_start) simp
  ultimately show ?case by simp
next
  case (Cons e before)
  then show ?case by simp
qed

lemma getProxyUri_loop_no_occurrence:
  "\<forall>e \<in> set elements. \<not> startsWith (trim e) ''DevelopmentStorageProxyUri='' \<Longrightarrow>
     getProxyUri_loop elements p = Inr p"
  by (induction elements) simp_all

lemma getProxyUri_loop_last_occurrence:
  assumes "startsWith (trim element) ''DevelopmentStorageProxyUri=''"
    and "\<forall>e \<in> set after. \<not> startsWith (trim e) ''DevelopmentStorageProxyUri=''"
  shows "getProxyUri_loop (before @ element # after) p =
           Inr (takeWhile (\<lambda>x. \<not> isLineTerminator x)
                  (drop (length ''DevelopmentStorageProxyUri='') (trim element)))"
proof (induction before arbitrary: p)
  case Nil
  have "match_group1 (trim element) ''DevelopmentStorageProxyUri='' =
      Some (takeWhile (\<lambda>x. \<not> isLineTerminator x)
              (drop (length ''DevelopmentStorageProxyUri='') (trim element)))"
    using assms(1) by (rule match_group1_at_start) simp
  with assms show ?case
    by (simp add: getProxyUri_loop_no_occurrence del: length_Cons list.size)
next
  case (Cons e before)
  show ?case
  proof (cases "startsWith (trim e) ''DevelopmentStorageProxyUri=''")
    case True
    then have "match_group1 (trim e) ''DevelopmentStorageProxyUri='' =
        Some (takeWhile (\<lambda>x. \<not> isLineTerminator x)
                (drop (length ''DevelopmentStorageProxyUri='') (trim e)))"
      by (rule match_group1_at_start) simp
    with True Cons.IH show ?thesis by simp
  next
    case False
    with Cons.IH show ?thesis by simp
  qed
qed

text \<open>
  Every connection string that begins with the emulator literal parses to the account of
  \<open>DevelopmentConnectionString\<close>; only the proxy URI comes from the string.
\<close>

lemma emulator_account_constants:
  assumes "startsWith s ''UseDevelopmentStorage=true''"
  shows "extractConnectionStringParts s =
           bind (getProxyUriFromDevConnString s) (\<lambda>proxyUri.
             Inr (AccountConnString ''http://127.0.0.1:10000/devstoreaccount1'' ''devstoreaccount1''
               (Buffer_from_base64
                  ''Eby8vdM02xNOcqFlqUwJPLlmEtlCDXJ1OUzFT50uSRZ6IFsuFq2UVErCz4I6tq/K1SZFPTOtr/KBHBeksoGMGw=='')
               proxyUri))"
proof -
  have be: "readBlobEndpoint DevelopmentConnectionString
      = Inr ''http://127.0.0.1:10000/devstoreaccount1''"
    by code_simp
  have n: "getValueInConnString DevelopmentConnectionString ''AccountName'' = Inr ''devstoreaccount1''"
    by code_simp
  have k: "getValueInConnString DevelopmentConnectionString ''AccountKey''
      = Inr ''Eby8vdM02xNOcqFlqUwJPLlmEtlCDXJ1OUzFT50uSRZ6IFsuFq2UVErCz4I6tq/K1SZFPTOtr/KBHBeksoGMGw==''"
    by code_simp
  have len: "length (Buffer_from_base64
      ''Eby8vdM02xNOcqFlqUwJPLlmEtlCDXJ1OUzFT50uSRZ6IFsuFq2UVErCz4I6tq/K1SZFPTOtr/KBHBeksoGMGw=='') = 64"
    by code_simp
  have branch: "accountBranch DevelopmentConnectionString ''http://127.0.0.1:10000/devstoreaccount1'' p
      = Inr (AccountConnString ''http://127.0.0.1:10000/devstoreaccount1'' ''devstoreaccount1''
          (Buffer_from_base64
             ''Eby8vdM02xNOcqFlqUwJPLlmEtlCDXJ1OUzFT50uSRZ6IFsuFq2UVErCz4I6tq/K1SZFPTOtr/KBHBeksoGMGw=='')
          p)" for p
    by (simp add: accountBranch_def n k len bind_Inr Let_def)
  show ?thesis
    using assms
    by (simp add: extractConnectionStringParts_def resolveDevelopment_def bind_def be branch
          Development_isAccount split: sum.splits)
qed

end
